theory Spec2Isabelle
  imports Main "HOL-Library.Char_ord" "HOL-Library.List_Lexorder"
begin

section \<open>Data model (tree-cache.hh)\<close>

text \<open>
  A \<open>Symbol\<close> is an interned name; the interner is an external collaborator whose
  \<open>create\<close> and \<open>resolve\<close> are inverse to each other, so a symbol is identified with its text.
  \<open>AttrId\<close> is the \<open>uint64_t\<close> row id, read here as a natural number (the store never
  reaches the end of the 64-bit range).
\<close>

type_synonym Symbol = string
type_synonym AttrId = nat
type_synonym AttrKey = "AttrId \<times> Symbol"
type_synonym Path = string

datatype AttrType = Placeholder | FullAttrs | String | Missing | Misc | Failed | Bool

text \<open>The numbering of \<open>enum AttrType\<close>, which is what the \<open>type\<close> column holds.\<close>

fun attrTypeCode :: "AttrType \<Rightarrow> nat" where
  "attrTypeCode Placeholder = 0"
| "attrTypeCode FullAttrs = 1"
| "attrTypeCode String = 2"
| "attrTypeCode Missing = 3"
| "attrTypeCode Misc = 4"
| "attrTypeCode Failed = 5"
| "attrTypeCode Bool = 6"

text \<open>
  \<open>AttrValue\<close> is the \<open>std::variant\<close> of the header, one constructor per alternative:
  \<open>std::vector<Symbol>\<close>, \<open>string_t\<close> (text and context), \<open>placeholder_t\<close>,
  \<open>missing_t\<close>, \<open>misc_t\<close>, \<open>failed_t\<close> and \<open>bool\<close>.
\<close>

datatype AttrValue =
    Attrs "Symbol list"
  | String_t string "(Path \<times> string) list"
  | Placeholder_t
  | Missing_t
  | Misc_t
  | Failed_t
  | Bool_t bool

record RawValue =
  raw_type :: AttrType
  raw_value :: "string option"
  raw_context :: "(Path \<times> string) list"

datatype error =
    SQLiteError
  | AssertionFailure
  | UnexpectedType
  | NullDereference

section \<open>Variant codec\<close>

fun fromVariant :: "AttrValue \<Rightarrow> RawValue" where
  "fromVariant (Attrs x) = \<lparr>raw_type = FullAttrs, raw_value = None, raw_context = []\<rparr>"
| "fromVariant Placeholder_t = \<lparr>raw_type = Placeholder, raw_value = None, raw_context = []\<rparr>"
| "fromVariant Missing_t = \<lparr>raw_type = Missing, raw_value = None, raw_context = []\<rparr>"
| "fromVariant Misc_t = \<lparr>raw_type = Misc, raw_value = None, raw_context = []\<rparr>"
| "fromVariant Failed_t = \<lparr>raw_type = Failed, raw_value = None, raw_context = []\<rparr>"
| "fromVariant (String_t txt ctx) = \<lparr>raw_type = String, raw_value = Some txt, raw_context = ctx\<rparr>"
| "fromVariant (Bool_t x) =
     \<lparr>raw_type = Bool, raw_value = Some (if x then ''0'' else ''1''), raw_context = []\<rparr>"

text \<open>
  Modelled from the spec: \<open>encodeContext\<close> and \<open>decodeContext\<close> are declared in
  \<open>context.hh\<close>, which is not among the sources. The specification gives the format of one
  entry as \<open><descriptor>:<locator>\<close>; decoding cuts the token at its first colon.
\<close>

definition encodeContext :: "Path \<Rightarrow> string \<Rightarrow> string" where
  "encodeContext descriptor locator = descriptor @ '':'' @ locator"

definition decodeContext :: "string \<Rightarrow> Path \<times> string" where
  "decodeContext s =
     (takeWhile (\<lambda>c. c \<noteq> CHR '':'') s, drop 1 (dropWhile (\<lambda>c. c \<noteq> CHR '':'') s))"

text \<open>
  The loop of \<open>RawValue::serializeContext\<close>: every entry is appended followed by a space,
  and the last space is removed when the result is not empty.
\<close>

fun serializeLoop :: "string \<Rightarrow> (Path \<times> string) list \<Rightarrow> string" where
  "serializeLoop res [] = res"
| "serializeLoop res (elt # rest) =
     serializeLoop (res @ encodeContext (fst elt) (snd elt) @ [CHR '' '']) rest"

definition serializeContext :: "RawValue \<Rightarrow> string" where
  "serializeContext rv =
     (let res = serializeLoop [] (raw_context rv)
      in if res \<noteq> [] then butlast res else res)"

text \<open>
  Modelled from the spec: \<open>tokenizeString\<close> belongs to the utility library, which is not
  among the sources. It cuts its argument at every character of \<open>separators\<close> and returns
  the non-empty pieces in order. \<open>cur\<close> is the piece being read.
\<close>

fun tokenizeFrom :: "string \<Rightarrow> string \<Rightarrow> string \<Rightarrow> string list" where
  "tokenizeFrom separators cur [] = (if cur = [] then [] else [cur])"
| "tokenizeFrom separators cur (c # cs) =
     (if c \<in> set separators
      then (if cur = [] then [] else [cur]) @ tokenizeFrom separators [] cs
      else tokenizeFrom separators (cur @ [c]) cs)"

definition tokenizeString :: "string \<Rightarrow> string \<Rightarrow> string list" where
  "tokenizeString s separators = tokenizeFrom separators [] s"

section \<open>The durable store (AttrDb)\<close>

text \<open>
  One row of the table \<open>Attributes\<close> of the schema. \<open>name\<close> is always bound to a symbol
  by the insert statements, \<open>value\<close> and \<open>context\<close> may be \<open>NULL\<close>.
\<close>

record Row =
  row_id :: nat
  row_parent :: nat
  row_name :: string
  row_type :: nat
  row_value :: "string option"
  row_context :: "string option"

text \<open>
  The state behind \<open>AttrDb\<close>: the \<open>failed\<close> flag, the table as the standing transaction
  sees it (\<open>rows\<close>, in insertion order), the table as of the last commit (\<open>committed\<close>),
  the autoincrement counter of the table (\<open>seq\<close>, the largest id ever given out) and the
  connection's last inserted row id. \<open>queries\<close> records, in order, the keys that
  \<open>queryAttribute\<close> was run with; nothing reads it.
\<close>

record AttrDb =
  failed :: bool
  rows :: "Row list"
  committed :: "Row list"
  seq :: nat
  lastInsertedRowId :: nat
  queries :: "AttrKey list"

text \<open>
  The two insert statements. The schema declares \<open>unique (parent, name)\<close> and the
  statements are plain \<open>insert into\<close>: a row whose parent and name are taken makes the
  statement fail with an \<open>SQLiteError\<close> and changes nothing; otherwise the row gets the
  next id of the autoincrement counter.
\<close>

definition keyRows :: "Row list \<Rightarrow> AttrKey \<Rightarrow> Row list" where
  "keyRows rs key = filter (\<lambda>r. row_parent r = fst key \<and> row_name r = snd key) rs"

definition execInsert ::
  "AttrDb \<Rightarrow> nat \<Rightarrow> Symbol \<Rightarrow> nat \<Rightarrow> string option \<Rightarrow> string option \<Rightarrow> error + AttrDb" where
  "execInsert s parent name ty val ctx =
     (if keyRows (rows s) (parent, name) \<noteq> [] then Inl SQLiteError
      else Inr (s\<lparr>rows := rows s @
                    [\<lparr>row_id = seq s + 1, row_parent = parent, row_name = name,
                      row_type = ty, row_value = val, row_context = ctx\<rparr>],
                  seq := seq s + 1,
                  lastInsertedRowId := seq s + 1\<rparr>))"

definition insertAttribute ::
  "AttrDb \<Rightarrow> nat \<Rightarrow> Symbol \<Rightarrow> AttrType \<Rightarrow> string option \<Rightarrow> error + AttrDb" where
  "insertAttribute s parent name ty val = execInsert s parent name (attrTypeCode ty) val None"

definition insertAttributeWithContext ::
  "AttrDb \<Rightarrow> nat \<Rightarrow> Symbol \<Rightarrow> AttrType \<Rightarrow> string option \<Rightarrow> string \<Rightarrow> error + AttrDb" where
  "insertAttributeWithContext s parent name ty val ctx =
     execInsert s parent name (attrTypeCode ty) val (Some ctx)"

text \<open>
  \<open>queryAttribute\<close> followed by \<open>next()\<close>: the first row with the given parent and name,
  if there is one. \<open>queryAttributes\<close>: the names of all rows with the given parent.
  The statement has no \<open>order by\<close> and is answered from the index on
  \<open>(parent, name)\<close>, so the names come out in ascending byte order.
\<close>

definition queryAttribute :: "AttrDb \<Rightarrow> AttrKey \<Rightarrow> Row option" where
  "queryAttribute s key = (case keyRows (rows s) key of [] \<Rightarrow> None | r # _ \<Rightarrow> Some r)"

definition queryAttributes :: "AttrDb \<Rightarrow> nat \<Rightarrow> string list" where
  "queryAttributes s rowId =
     sort (map row_name (filter (\<lambda>r. row_parent r = rowId) (rows s)))"

definition logQuery :: "AttrDb \<Rightarrow> AttrKey \<Rightarrow> AttrDb" where
  "logQuery s key = s\<lparr>queries := queries s @ [key]\<rparr>"

text \<open>
  Both readers convert the integer of a column with \<open>(AttrType) queryAttribute.getInt(.)\<close>.
  \<open>AttrType\<close> is an unscoped enumeration that the supported compilers represent as an
  unsigned 32-bit integer, so the conversion keeps the low 32 bits.
\<close>

definition castAttrType :: "nat \<Rightarrow> nat" where
  "castAttrType x = x mod 2 ^ 32"

text \<open>
  What the driver's \<open>getInt\<close> returns for a text column: \<open>NULL\<close> reads as zero, a text
  reads as the number that its leading decimal digits spell, after any white space and
  an optional sign, and as zero when there are no digits there. (The driver also clamps
  the number to the 64-bit range, which does not change whether it is zero.)
\<close>

definition isSpace :: "char \<Rightarrow> bool" where
  "isSpace c = ((of_char c :: nat) = 32 \<or> (9 \<le> (of_char c :: nat) \<and> (of_char c :: nat) \<le> 13))"

fun leadingDigits :: "nat \<Rightarrow> string \<Rightarrow> nat" where
  "leadingDigits acc [] = acc"
| "leadingDigits acc (c # cs) =
     (if 48 \<le> (of_char c :: nat) \<and> (of_char c :: nat) \<le> 57
      then leadingDigits (acc * 10 + ((of_char c :: nat) - 48)) cs
      else acc)"

definition getInt :: "string option \<Rightarrow> int" where
  "getInt col =
     (case col of
        None \<Rightarrow> 0
      | Some txt \<Rightarrow>
          (case dropWhile isSpace txt of
             [] \<Rightarrow> 0
           | c # cs \<Rightarrow>
               (if c = CHR ''-'' then - int (leadingDigits 0 cs)
                else if c = CHR ''+'' then int (leadingDigits 0 cs)
                else int (leadingDigits 0 (c # cs)))))"

text \<open>The driver's \<open>getStr\<close> asserts that the column is not \<open>NULL\<close>.\<close>

definition getStr :: "string option \<Rightarrow> error + string" where
  "getStr col = (case col of None \<Rightarrow> Inl AssertionFailure | Some s \<Rightarrow> Inr s)"

text \<open>
  \<open>doSQLite\<close> runs a body unless the store has failed. The body returns an id or raises,
  and in both cases leaves a state behind (a statement that fails undoes only itself).
  An \<open>SQLiteError\<close> is caught: it sets \<open>failed\<close> and the result is the id 0.
\<close>

definition doSQLite ::
  "AttrDb \<Rightarrow> (AttrDb \<Rightarrow> (error + AttrId) \<times> AttrDb) \<Rightarrow> error + (AttrId \<times> AttrDb)" where
  "doSQLite s body =
     (if failed s then Inr (0, s)
      else (case body s of
              (Inr rowId, s') \<Rightarrow> Inr (rowId, s')
            | (Inl SQLiteError, s') \<Rightarrow> Inr (0, s'\<lparr>failed := True\<rparr>)
            | (Inl e, s') \<Rightarrow> Inl e))"

definition isAttrs :: "AttrValue \<Rightarrow> bool" where
  "isAttrs v = (case v of Attrs x \<Rightarrow> True | _ \<Rightarrow> False)"

definition setLeafBody :: "AttrKey \<Rightarrow> AttrValue \<Rightarrow> AttrDb \<Rightarrow> (error + AttrId) \<times> AttrDb" where
  "setLeafBody key v s =
     (let rawValue = fromVariant v in
      case insertAttributeWithContext s (fst key) (snd key) (raw_type rawValue)
             (raw_value rawValue) (serializeContext rawValue) of
        Inl e \<Rightarrow> (Inl e, s)
      | Inr s' \<Rightarrow>
          (let rowId = lastInsertedRowId s'
           in if rowId = 0 then (Inl AssertionFailure, s') else (Inr rowId, s')))"

definition setLeaf :: "AttrDb \<Rightarrow> AttrKey \<Rightarrow> AttrValue \<Rightarrow> error + (AttrId \<times> AttrDb)" where
  "setLeaf s key v =
     (if isAttrs v then Inl AssertionFailure else doSQLite s (setLeafBody key v))"

text \<open>The loop of \<open>setAttrs\<close> over the names: one \<open>Placeholder\<close> row under \<open>rowId\<close> each.\<close>

fun insertChildren :: "AttrDb \<Rightarrow> AttrId \<Rightarrow> Symbol list \<Rightarrow> (error + AttrId) \<times> AttrDb" where
  "insertChildren s rowId [] = (Inr rowId, s)"
| "insertChildren s rowId (attr # attrs) =
     (case insertAttribute s rowId attr Placeholder None of
        Inl e \<Rightarrow> (Inl e, s)
      | Inr s' \<Rightarrow> insertChildren s' rowId attrs)"

definition setAttrsBody :: "AttrKey \<Rightarrow> Symbol list \<Rightarrow> AttrDb \<Rightarrow> (error + AttrId) \<times> AttrDb" where
  "setAttrsBody key attrs s =
     (case insertAttribute s (fst key) (snd key) FullAttrs None of
        Inl e \<Rightarrow> (Inl e, s)
      | Inr s' \<Rightarrow>
          (let rowId = lastInsertedRowId s'
           in if rowId = 0 then (Inl AssertionFailure, s')
              else insertChildren s' rowId attrs))"

definition setAttrs :: "AttrDb \<Rightarrow> AttrKey \<Rightarrow> Symbol list \<Rightarrow> error + (AttrId \<times> AttrDb)" where
  "setAttrs s key attrs = doSQLite s (setAttrsBody key attrs)"

definition setValue :: "AttrDb \<Rightarrow> AttrKey \<Rightarrow> AttrValue \<Rightarrow> error + (AttrId \<times> AttrDb)" where
  "setValue s key v = (case v of Attrs attrs \<Rightarrow> setAttrs s key attrs | _ \<Rightarrow> setLeaf s key v)"

definition getId :: "AttrDb \<Rightarrow> AttrKey \<Rightarrow> AttrId option \<times> AttrDb" where
  "getId s key =
     (case queryAttribute s key of
        None \<Rightarrow> (None, logQuery s key)
      | Some r \<Rightarrow> (Some (castAttrType (row_id r)), logQuery s key))"

definition setIfAbsent :: "AttrDb \<Rightarrow> AttrKey \<Rightarrow> AttrValue \<Rightarrow> error + (AttrId \<times> AttrDb)" where
  "setIfAbsent s key v =
     (case getId s key of
        (Some existingId, s') \<Rightarrow> Inr (existingId, s')
      | (None, s') \<Rightarrow> setValue s' key v)"

text \<open>
  The context of a \<open>String\<close> row: empty when the column is \<open>NULL\<close>, otherwise the
  column's text is cut at every semicolon and each piece is decoded.
\<close>

definition decodeContextColumn :: "string option \<Rightarrow> (Path \<times> string) list" where
  "decodeContextColumn col =
     (case col of
        None \<Rightarrow> []
      | Some c \<Rightarrow> map decodeContext (tokenizeString c '';''))"

text \<open>The \<open>switch\<close> of \<open>getAttr\<close> on the type of the row that was found.\<close>

definition decodeRow :: "AttrDb \<Rightarrow> Row \<Rightarrow> error + (AttrId \<times> AttrValue)" where
  "decodeRow s r =
     (let rowId = castAttrType (row_id r); ty = castAttrType (row_type r) in
      if ty = attrTypeCode Placeholder then Inr (rowId, Placeholder_t)
      else if ty = attrTypeCode FullAttrs then Inr (rowId, Attrs (queryAttributes s rowId))
      else if ty = attrTypeCode String then
        (let ctx = decodeContextColumn (row_context r)
         in case getStr (row_value r) of
              Inl e \<Rightarrow> Inl e
            | Inr txt \<Rightarrow> Inr (rowId, String_t txt ctx))
      else if ty = attrTypeCode Bool then Inr (rowId, Bool_t (getInt (row_value r) \<noteq> 0))
      else if ty = attrTypeCode Missing then Inr (rowId, Missing_t)
      else if ty = attrTypeCode Misc then Inr (rowId, Misc_t)
      else if ty = attrTypeCode Failed then Inr (rowId, Failed_t)
      else Inl UnexpectedType)"

definition getAttr :: "AttrDb \<Rightarrow> AttrKey \<Rightarrow> error + ((AttrId \<times> AttrValue) option \<times> AttrDb)" where
  "getAttr s key =
     (case queryAttribute s key of
        None \<Rightarrow> Inr (None, logQuery s key)
      | Some r \<Rightarrow>
          (case decodeRow s r of
             Inl e \<Rightarrow> Inl e
           | Inr hit \<Rightarrow> Inr (Some hit, logQuery s key)))"

section \<open>Cache and Cursor\<close>

text \<open>
  A \<open>Cache\<close> holds the pointer to its store, which is null when persistence is off, and
  the root symbol, which is the interned empty text.
\<close>

record Cache =
  db :: "AttrDb option"
  rootSymbol :: Symbol

text \<open>
  The constructor of \<open>Cache\<close>. \<open>makeAttrDb\<close> stands for opening the store of a
  fingerprint: it gives no store when opening raises an \<open>SQLiteError\<close>.
\<close>

definition newCache :: "'h option \<Rightarrow> ('h \<Rightarrow> AttrDb option) \<Rightarrow> Cache" where
  "newCache useCache makeAttrDb =
     \<lparr>db = (case useCache of None \<Rightarrow> None | Some fingerprint \<Rightarrow> makeAttrDb fingerprint),
      rootSymbol = ''''\<rparr>"

definition commit :: "Cache \<Rightarrow> Cache" where
  "commit cache =
     (case db cache of
        None \<Rightarrow> cache
      | Some s \<Rightarrow> cache\<lparr>db := Some (s\<lparr>committed := rows s\<rparr>)\<rparr>)"

text \<open>
  A \<open>Cursor\<close> holds its parent relation (the parent cursor and the edge name) and the
  memo \<open>cachedValue\<close>. The cache it belongs to is passed to every operation, and an
  operation that changes the cursor returns the changed cursor. The parent is held as
  it is when the cursor is made; every property below is about operations on one
  cursor, between which its parent's memo is not written.
\<close>

datatype Cursor =
  Cursor (parent: "(Cursor \<times> Symbol) option") (cachedValue: "AttrId \<times> AttrValue")

definition getKey :: "Cache \<Rightarrow> (Cursor \<times> Symbol) option \<Rightarrow> AttrKey" where
  "getKey cache par =
     (case par of
        None \<Rightarrow> (0, rootSymbol cache)
      | Some (p, name) \<Rightarrow> (fst (cachedValue p), name))"

text \<open>The constructor that creates a cache entry (through \<open>setIfAbsent\<close>).\<close>

definition declareCursor ::
  "Cache \<Rightarrow> (Cursor \<times> Symbol) option \<Rightarrow> AttrValue \<Rightarrow> error + (Cursor \<times> Cache)" where
  "declareCursor cache par v =
     (case db cache of
        None \<Rightarrow> Inl NullDereference
      | Some s \<Rightarrow>
          (case setIfAbsent s (getKey cache par) v of
             Inl e \<Rightarrow> Inl e
           | Inr (rowId, s') \<Rightarrow> Inr (Cursor par (rowId, v), cache\<lparr>db := Some s'\<rparr>)))"

text \<open>The constructor that wraps an entry already read from the store.\<close>

definition rehydrateCursor :: "(Cursor \<times> Symbol) option \<Rightarrow> AttrId \<Rightarrow> AttrValue \<Rightarrow> Cursor" where
  "rehydrateCursor par rowId v = Cursor par (rowId, v)"

definition getRoot :: "Cache \<Rightarrow> error + (Cursor \<times> Cache)" where
  "getRoot cache = declareCursor cache None (Attrs [])"

definition getCachedValue :: "Cursor \<Rightarrow> AttrValue" where
  "getCachedValue cur = snd (cachedValue cur)"

definition Cursor_setValue :: "Cache \<Rightarrow> Cursor \<Rightarrow> AttrValue \<Rightarrow> error + (Cursor \<times> Cache)" where
  "Cursor_setValue cache cur v =
     (case db cache of
        None \<Rightarrow> Inl NullDereference
      | Some s \<Rightarrow>
          (case setValue s (getKey cache (parent cur)) v of
             Inl e \<Rightarrow> Inl e
           | Inr (rowId, s') \<Rightarrow> Inr (Cursor (parent cur) (rowId, v), cache\<lparr>db := Some s'\<rparr>)))"

definition addChild :: "Cache \<Rightarrow> Cursor \<Rightarrow> Symbol \<Rightarrow> AttrValue \<Rightarrow> error + (Cursor \<times> Cache)" where
  "addChild cache cur attrPath v = declareCursor cache (Some (cur, attrPath)) v"

definition maybeGetAttr :: "Cache \<Rightarrow> Cursor \<Rightarrow> Symbol \<Rightarrow> error + (Cursor option \<times> Cache)" where
  "maybeGetAttr cache cur name =
     (case db cache of
        None \<Rightarrow> Inl NullDereference
      | Some s \<Rightarrow>
          (case getAttr s (fst (cachedValue cur), name) of
             Inl e \<Rightarrow> Inl e
           | Inr (Some rawAttr, s') \<Rightarrow>
               Inr (Some (rehydrateCursor (Some (cur, name)) (fst rawAttr) (snd rawAttr)),
                    cache\<lparr>db := Some s'\<rparr>)
           | Inr (None, s') \<Rightarrow> Inr (None, cache\<lparr>db := Some s'\<rparr>)))"

fun findAlongAttrPath :: "Cache \<Rightarrow> Cursor \<Rightarrow> Symbol list \<Rightarrow> error + (Cursor option \<times> Cache)" where
  "findAlongAttrPath cache currentCursor [] = Inr (Some currentCursor, cache)"
| "findAlongAttrPath cache currentCursor (currentAccessor # rest) =
     (case maybeGetAttr cache currentCursor currentAccessor of
        Inl e \<Rightarrow> Inl e
      | Inr (None, cache') \<Rightarrow> Inr (None, cache')
      | Inr (Some next, cache') \<Rightarrow> findAlongAttrPath cache' next rest)"

section \<open>Writing and reading back\<close>

text \<open>
  A write through \<open>setValue\<close> followed by a read of the same key through \<open>getAttr\<close>;
  the result is the value that was read, if any.
\<close>

definition writeThenRead :: "AttrDb \<Rightarrow> AttrKey \<Rightarrow> AttrValue \<Rightarrow> error + AttrValue option" where
  "writeThenRead s key v =
     (case setValue s key v of
        Inl e \<Rightarrow> Inl e
      | Inr (rowId, s') \<Rightarrow>
          (case getAttr s' key of
             Inl e \<Rightarrow> Inl e
           | Inr (hit, s'') \<Rightarrow> Inr (map_option snd hit)))"

section \<open>Concrete stores and cursors\<close>

definition emptyDb :: AttrDb where
  "emptyDb = \<lparr>failed = False, rows = [], committed = [], seq = 0, lastInsertedRowId = 0,
              queries = []\<rparr>"

definition mkRow :: "nat \<Rightarrow> nat \<Rightarrow> string \<Rightarrow> AttrType \<Rightarrow> string option \<Rightarrow> string option \<Rightarrow> Row" where
  "mkRow i p n ty val ctx =
     \<lparr>row_id = i, row_parent = p, row_name = n, row_type = attrTypeCode ty,
      row_value = val, row_context = ctx\<rparr>"

text \<open>
  The store after the root has been declared as \<open>FullAttrs\<close> with the one name \<open>a\<close>:
  the root's row and the placeholder row of \<open>a\<close> under it.
\<close>

definition placeholderDb :: AttrDb where
  "placeholderDb =
     \<lparr>failed = False,
      rows = [mkRow 1 0 '''' FullAttrs None None, mkRow 2 1 ''a'' Placeholder None None],
      committed = [], seq = 2, lastInsertedRowId = 2, queries = []\<rparr>"

definition rootCursor :: Cursor where
  "rootCursor = Cursor None (1, Attrs [''a''])"

definition placeholderCursor :: Cursor where
  "placeholderCursor = Cursor (Some (rootCursor, ''a'')) (2, Placeholder_t)"

text \<open>The store in which the root holds \<open>Missing\<close>.\<close>

definition missingDb :: AttrDb where
  "missingDb =
     \<lparr>failed = False, rows = [mkRow 1 0 '''' Missing None (Some '''')],
      committed = [], seq = 1, lastInsertedRowId = 1, queries = []\<rparr>"

text \<open>
  The rows that the loop of \<open>setAttrs\<close> adds for a list of names, when every insert
  succeeds: \<open>n\<close> is the autoincrement counter before the first of them.
\<close>

fun childRows :: "nat \<Rightarrow> nat \<Rightarrow> Symbol list \<Rightarrow> Row list" where
  "childRows rowId n [] = []"
| "childRows rowId n (attr # attrs) =
     \<lparr>row_id = n + 1, row_parent = rowId, row_name = attr, row_type = attrTypeCode Placeholder,
      row_value = None, row_context = None\<rparr> # childRows rowId (n + 1) attrs"

text \<open>The row that \<open>setLeaf\<close> inserts for a value at a key, with the id it is given.\<close>

definition leafRow :: "nat \<Rightarrow> AttrKey \<Rightarrow> AttrValue \<Rightarrow> Row" where
  "leafRow i key v =
     \<lparr>row_id = i, row_parent = fst key, row_name = snd key,
      row_type = attrTypeCode (raw_type (fromVariant v)),
      row_value = raw_value (fromVariant v),
      row_context = Some (serializeContext (fromVariant v))\<rparr>"

text \<open>The store \<open>placeholderDb\<close> after a write has failed.\<close>

definition failedDb :: AttrDb where
  "failedDb = placeholderDb\<lparr>failed := True\<rparr>"

text \<open>
  The store after \<open>setIfAbsent\<close> has written \<open>Bool true\<close> at the root key of the
  empty store: one query, one row holding the literal \<open>0\<close>.
\<close>

definition boolDb :: AttrDb where
  "boolDb =
     \<lparr>failed = False, rows = [mkRow 1 0 '''' Bool (Some ''0'') (Some '''')],
      committed = [], seq = 1, lastInsertedRowId = 1, queries = [(0, '''')]\<rparr>"

text \<open>An empty store whose autoincrement counter is one below \<open>2 ^ 32\<close>.\<close>

definition bigDb :: AttrDb where
  "bigDb = \<lparr>failed = False, rows = [], committed = [], seq = 4294967295,
            lastInsertedRowId = 0, queries = []\<rparr>"

lemmas codec_defs =
  encodeContext_def decodeContext_def serializeContext_def tokenizeString_def
  decodeContextColumn_def isSpace_def getInt_def getStr_def castAttrType_def

lemmas store_defs =
  keyRows_def execInsert_def insertAttribute_def insertAttributeWithContext_def
  queryAttribute_def queryAttributes_def logQuery_def doSQLite_def isAttrs_def
  setLeafBody_def setLeaf_def setAttrsBody_def setAttrs_def setValue_def getId_def
  setIfAbsent_def decodeRow_def getAttr_def

lemmas cursor_defs =
  newCache_def commit_def getKey_def declareCursor_def rehydrateCursor_def getRoot_def
  getCachedValue_def Cursor_setValue_def addChild_def maybeGetAttr_def

lemmas example_defs =
  emptyDb_def mkRow_def placeholderDb_def rootCursor_def placeholderCursor_def missingDb_def
  failedDb_def boolDb_def

section \<open>The insert statements and the write paths\<close>

lemma execInsert_fresh:
  "keyRows (rows s) (p, n) = [] \<Longrightarrow>
   execInsert s p n ty val ctx =
     Inr (s\<lparr>rows := rows s @ [\<lparr>row_id = seq s + 1, row_parent = p, row_name = n,
                                row_type = ty, row_value = val, row_context = ctx\<rparr>],
            seq := seq s + 1, lastInsertedRowId := seq s + 1\<rparr>)"
  by (simp add: execInsert_def)

lemma execInsert_taken:
  "keyRows (rows s) (p, n) \<noteq> [] \<Longrightarrow> execInsert s p n ty val ctx = Inl SQLiteError"
  by (simp add: execInsert_def)

lemma execInsert_error: "execInsert s p n ty val ctx = Inl e \<Longrightarrow> e = SQLiteError"
  by (simp add: execInsert_def split: if_splits)

lemma execInsert_lastId:
  "execInsert s p n ty val ctx = Inr s' \<Longrightarrow> lastInsertedRowId s' = seq s + 1"
  by (auto simp: execInsert_def split: if_splits)

lemma insertChildren_error:
  "fst (insertChildren s rowId attrs) = Inl e \<Longrightarrow> e = SQLiteError"
proof (induction attrs arbitrary: s)
  case Nil
  then show ?case by simp
next
  case (Cons a attrs)
  show ?case
  proof (cases "insertAttribute s rowId a Placeholder None")
    case (Inl e')
    with Cons.prems show ?thesis
      by (auto simp: insertAttribute_def dest: execInsert_error)
  next
    case (Inr s')
    with Cons show ?thesis by simp
  qed
qed

lemma setLeafBody_error: "fst (setLeafBody key v s) = Inl e \<Longrightarrow> e = SQLiteError"
  by (auto simp: setLeafBody_def insertAttributeWithContext_def Let_def
           split: sum.splits if_splits dest: execInsert_error execInsert_lastId)

lemma setAttrsBody_error: "fst (setAttrsBody key attrs s) = Inl e \<Longrightarrow> e = SQLiteError"
  by (auto simp: setAttrsBody_def insertAttribute_def Let_def
           split: sum.splits if_splits dest: execInsert_error execInsert_lastId insertChildren_error)

lemma doSQLite_total:
  assumes "\<And>e. fst (body s) = Inl e \<Longrightarrow> e = SQLiteError"
  shows "\<exists>rowId s'. doSQLite s body = Inr (rowId, s')"
proof (cases "body s")
  case (Pair res s1)
  show ?thesis
  proof (cases res)
    case (Inl e)
    with Pair assms have "e = SQLiteError" by simp
    with Pair Inl show ?thesis by (simp add: doSQLite_def)
  next
    case (Inr i)
    with Pair show ?thesis by (simp add: doSQLite_def)
  qed
qed

lemma setValue_total: "\<exists>rowId s'. setValue s key v = Inr (rowId, s')"
proof (cases v)
  case (Attrs names)
  then show ?thesis
    using doSQLite_total [of "setAttrsBody key names" s] setAttrsBody_error
    by (simp add: setValue_def setAttrs_def)
qed (use doSQLite_total [of "setLeafBody key v" s] setLeafBody_error
      in \<open>simp_all add: setValue_def setLeaf_def isAttrs_def\<close>)

lemma doSQLite_failed: "failed s \<Longrightarrow> doSQLite s body = Inr (0, s)"
  by (simp add: doSQLite_def)

lemma setValue_failed: "failed s \<Longrightarrow> setValue s key v = Inr (0, s)"
  by (cases v) (simp_all add: setValue_def setLeaf_def setAttrs_def isAttrs_def doSQLite_failed)

lemma setValue_taken:
  assumes "\<not> failed s" and "keyRows (rows s) key \<noteq> []"
  shows "setValue s key v = Inr (0, s\<lparr>failed := True\<rparr>)"
proof -
  have ins: "execInsert s (fst key) (snd key) ty val ctx = Inl SQLiteError" for ty val ctx
    using assms(2) by (simp add: execInsert_taken)
  show ?thesis
    using assms(1)
    by (cases v)
       (simp_all add: setValue_def setLeaf_def setAttrs_def isAttrs_def doSQLite_def
          setLeafBody_def setAttrsBody_def insertAttribute_def insertAttributeWithContext_def ins)
qed

lemma setLeaf_fresh:
  assumes "\<not> failed s" and "keyRows (rows s) key = []" and "\<not> isAttrs v"
  shows "setLeaf s key v =
           Inr (seq s + 1, s\<lparr>rows := rows s @ [leafRow (seq s + 1) key v],
                              seq := seq s + 1, lastInsertedRowId := seq s + 1\<rparr>)"
  using assms
  by (simp add: setLeaf_def doSQLite_def setLeafBody_def insertAttributeWithContext_def
        execInsert_def leafRow_def Let_def)

text \<open>
  What a write at a fresh key does in every case: in a failed store nothing; otherwise the
  row of the key is inserted with the next id, and the result is that id unless an insert
  of a child fails, which sets the flag and gives 0.
\<close>

lemma insertChildren_outcome:
  "\<exists>ext. rows (snd (insertChildren s rowId attrs)) = rows s @ ext
     \<and> failed (snd (insertChildren s rowId attrs)) = failed s
     \<and> (fst (insertChildren s rowId attrs) = Inr rowId
          \<or> fst (insertChildren s rowId attrs) = Inl SQLiteError)"
proof (induction attrs arbitrary: s)
  case Nil
  then show ?case by simp
next
  case (Cons a attrs)
  show ?case
  proof (cases "keyRows (rows s) (rowId, a) = []")
    case False
    then show ?thesis by (simp add: insertAttribute_def execInsert_taken)
  next
    case True
    define s1 where "s1 = s\<lparr>rows := rows s @ [\<lparr>row_id = seq s + 1, row_parent = rowId,
        row_name = a, row_type = attrTypeCode Placeholder, row_value = None,
        row_context = None\<rparr>], seq := seq s + 1, lastInsertedRowId := seq s + 1\<rparr>"
    have ins: "insertAttribute s rowId a Placeholder None = Inr s1"
      using True by (simp add: insertAttribute_def execInsert_fresh s1_def)
    from Cons.IH [of s1] obtain ext where
      "rows (snd (insertChildren s1 rowId attrs)) = rows s1 @ ext"
      "failed (snd (insertChildren s1 rowId attrs)) = failed s1"
      "fst (insertChildren s1 rowId attrs) = Inr rowId
         \<or> fst (insertChildren s1 rowId attrs) = Inl SQLiteError"
      by (rule exE) (elim conjE, rule that, assumption+)
    then show ?thesis using ins by (simp add: s1_def)
  qed
qed

lemma queryAttribute_first:
  "keyRows (rows s) key = [] \<Longrightarrow> row_parent r = fst key \<Longrightarrow> row_name r = snd key \<Longrightarrow>
   rows s' = rows s @ r # ext \<Longrightarrow> queryAttribute s' key = Some r"
  by (simp add: queryAttribute_def keyRows_def)

lemma setValue_fresh_outcome:
  assumes fresh: "keyRows (rows s) key = []"
  shows "\<exists>rowId s'. setValue s key v = Inr (rowId, s')
           \<and> (failed s \<longrightarrow> rowId = 0 \<and> rows s' = rows s \<and> failed s')
           \<and> (failed s' \<longrightarrow> rowId = 0)
           \<and> (\<not> failed s' \<longrightarrow> rowId = seq s + 1
                \<and> (\<exists>r. queryAttribute s' key = Some r \<and> row_id r = seq s + 1
                       \<and> row_type r = attrTypeCode (raw_type (fromVariant v))))"
proof (cases "failed s")
  case True
  then show ?thesis by (simp add: setValue_failed)
next
  case healthy: False
  show ?thesis
  proof (cases "isAttrs v")
    case False
    then have "setValue s key v = setLeaf s key v"
      by (cases v) (simp_all add: setValue_def isAttrs_def)
    then have w: "setValue s key v
        = Inr (seq s + 1, s\<lparr>rows := rows s @ [leafRow (seq s + 1) key v],
                              seq := seq s + 1, lastInsertedRowId := seq s + 1\<rparr>)"
      using setLeaf_fresh [OF healthy fresh False] by simp
    have "queryAttribute (s\<lparr>rows := rows s @ [leafRow (seq s + 1) key v],
                              seq := seq s + 1, lastInsertedRowId := seq s + 1\<rparr>) key
            = Some (leafRow (seq s + 1) key v)"
      using fresh by (intro queryAttribute_first [where s = s and ext = "[]"])
                     (simp_all add: leafRow_def)
    then show ?thesis using w healthy by (simp add: leafRow_def)
  next
    case True
    then obtain names where v: "v = Attrs names" by (cases v) (simp_all add: isAttrs_def)
    define prow where "prow = \<lparr>row_id = seq s + 1, row_parent = fst key, row_name = snd key,
        row_type = attrTypeCode FullAttrs, row_value = None, row_context = None\<rparr>"
    define s1 where "s1 = s\<lparr>rows := rows s @ [prow], seq := seq s + 1,
        lastInsertedRowId := seq s + 1\<rparr>"
    have ins: "insertAttribute s (fst key) (snd key) FullAttrs None = Inr s1"
      using fresh by (simp add: insertAttribute_def execInsert_fresh s1_def prow_def)
    obtain res s2 where ch: "insertChildren s1 (seq s + 1) names = (res, s2)"
      by (cases "insertChildren s1 (seq s + 1) names")
    from insertChildren_outcome [of s1 "seq s + 1" names] ch obtain ext where
      rows2: "rows s2 = rows s1 @ ext" and f2: "failed s2 = failed s1"
      and res: "res = Inr (seq s + 1) \<or> res = Inl SQLiteError"
      by auto
    have body: "setAttrsBody key names s = (res, s2)"
      using ins ch by (simp add: setAttrsBody_def s1_def)
    have q: "queryAttribute s2 key = Some prow"
      using fresh rows2
      by (intro queryAttribute_first [where s = s and ext = ext]) (simp_all add: prow_def s1_def)
    have nf: "\<not> failed s2" using f2 healthy by (simp add: s1_def)
    from res show ?thesis
    proof
      assume "res = Inr (seq s + 1)"
      then have "setValue s key v = Inr (seq s + 1, s2)"
        using healthy body by (simp add: v setValue_def setAttrs_def doSQLite_def)
      then show ?thesis using q nf healthy by (simp add: prow_def v)
    next
      assume "res = Inl SQLiteError"
      then have "setValue s key v = Inr (0, s2\<lparr>failed := True\<rparr>)"
        using healthy body by (simp add: v setValue_def setAttrs_def doSQLite_def)
      then show ?thesis using healthy by simp
    qed
  qed
qed

text \<open>The concrete stores are what the write paths produce from the empty store.\<close>

lemma placeholderDb_reached: "setAttrs emptyDb (0, '''') [''a''] = Inr (1, placeholderDb)"
  by (simp add: store_defs example_defs)

lemma missingDb_reached: "setLeaf emptyDb (0, '''') Missing_t = Inr (1, missingDb)"
  by (simp add: store_defs codec_defs example_defs)

lemma placeholderCursor_reached:
  "maybeGetAttr \<lparr>db = Some placeholderDb, rootSymbol = ''''\<rparr> rootCursor ''a''
     = Inr (Some placeholderCursor,
            \<lparr>db = Some (logQuery placeholderDb (1, ''a'')), rootSymbol = ''''\<rparr>)"
  by (simp add: cursor_defs store_defs codec_defs example_defs)

subsection \<open>The rows written by \<open>setAttrs\<close>\<close>

lemma childRows_parent: "r \<in> set (childRows rowId n attrs) \<Longrightarrow> row_parent r = rowId"
  by (induction attrs arbitrary: n) auto

lemma childRows_type: "r \<in> set (childRows rowId n attrs) \<Longrightarrow> row_type r = 0"
  by (induction attrs arbitrary: n) auto

lemma childRows_names: "map row_name (childRows rowId n attrs) = attrs"
  by (induction attrs arbitrary: n) auto

lemma childRows_filter_parent:
  "filter (\<lambda>r. row_parent r = rowId) (childRows rowId n attrs) = childRows rowId n attrs"
  by (induction attrs arbitrary: n) auto

lemma childRows_other_parent:
  "p \<noteq> rowId \<Longrightarrow> filter (\<lambda>r. row_parent r = p \<and> Q r) (childRows rowId n attrs) = []"
  by (induction attrs arbitrary: n) auto

lemma childRows_keyRows_absent:
  "name \<notin> set attrs \<Longrightarrow> keyRows (childRows rowId n attrs) (rowId, name) = []"
  by (induction attrs arbitrary: n) (auto simp: keyRows_def)

lemma childRows_keyRows_present:
  "name \<in> set attrs \<Longrightarrow> keyRows (childRows rowId n attrs) (rowId, name) \<noteq> []"
  by (induction attrs arbitrary: n) (auto simp: keyRows_def)

lemma insertChildren_fresh:
  assumes "distinct attrs"
    and "\<forall>name \<in> set attrs. keyRows (rows s) (rowId, name) = []"
  shows "\<exists>s'. insertChildren s rowId attrs = (Inr rowId, s')
           \<and> rows s' = rows s @ childRows rowId (seq s) attrs
           \<and> failed s' = failed s \<and> committed s' = committed s \<and> queries s' = queries s"
  using assms
proof (induction attrs arbitrary: s)
  case Nil
  then show ?case by simp
next
  case (Cons a attrs)
  define s1 where "s1 = s\<lparr>rows := rows s @ [\<lparr>row_id = seq s + 1, row_parent = rowId, row_name = a,
                                row_type = attrTypeCode Placeholder, row_value = None, row_context = None\<rparr>],
            seq := seq s + 1, lastInsertedRowId := seq s + 1\<rparr>"
  have ins: "insertAttribute s rowId a Placeholder None = Inr s1"
    using Cons.prems(2) by (simp add: insertAttribute_def execInsert_fresh s1_def)
  have "a \<notin> set attrs" and "distinct attrs" using Cons.prems(1) by simp_all
  then have "\<forall>name \<in> set attrs. keyRows (rows s1) (rowId, name) = []"
    using Cons.prems(2) by (auto simp: s1_def keyRows_def)
  with Cons.IH [of s1] \<open>distinct attrs\<close> obtain s' where
    "insertChildren s1 rowId attrs = (Inr rowId, s')"
    "rows s' = rows s1 @ childRows rowId (seq s1) attrs"
    "failed s' = failed s1" "committed s' = committed s1" "queries s' = queries s1"
    by blast
  then show ?case
    using ins by (simp add: s1_def)
qed

lemma decodeRow_Placeholder:
  "row_type r = 0 \<Longrightarrow> decodeRow s r = Inr (castAttrType (row_id r), Placeholder_t)"
  by (simp add: decodeRow_def castAttrType_def)

lemma decodeRow_FullAttrs:
  "row_type r = 1 \<Longrightarrow>
   decodeRow s r = Inr (castAttrType (row_id r), Attrs (queryAttributes s (castAttrType (row_id r))))"
  by (simp add: decodeRow_def castAttrType_def Let_def)

subsection \<open>Reads\<close>

lemma getAttr_absent:
  "keyRows (rows s) key = [] \<Longrightarrow> getAttr s key = Inr (None, logQuery s key)"
  by (simp add: getAttr_def queryAttribute_def)

lemma getId_absent:
  "keyRows (rows s) key = [] \<Longrightarrow> getId s key = (None, logQuery s key)"
  by (simp add: getId_def queryAttribute_def)

lemma getId_present:
  "queryAttribute s key = Some r \<Longrightarrow> getId s key = (Some (castAttrType (row_id r)), logQuery s key)"
  by (simp add: getId_def)

lemma maybeGetAttr_state:
  assumes "db cache = Some s" and "maybeGetAttr cache cur name = Inr (res, cache')"
  shows "cache' = cache\<lparr>db := Some (logQuery s (fst (cachedValue cur), name))\<rparr>"
  using assms
  by (auto simp: maybeGetAttr_def getAttr_def split: sum.splits option.splits)

subsection \<open>The failed flag\<close>

lemma setIfAbsent_failed:
  assumes "failed s"
  shows "setIfAbsent s key v
           = Inr (case queryAttribute s key of None \<Rightarrow> 0 | Some r \<Rightarrow> castAttrType (row_id r),
                  logQuery s key)"
proof (cases "queryAttribute s key")
  case None
  have "failed (logQuery s key)" using assms by (simp add: logQuery_def)
  then have "setValue (logQuery s key) key v = Inr (0, logQuery s key)"
    by (rule setValue_failed)
  with None show ?thesis by (simp add: setIfAbsent_def getId_def)
next
  case (Some r)
  then show ?thesis by (simp add: setIfAbsent_def getId_def)
qed

lemma queryAttribute_flag: "queryAttribute (s\<lparr>failed := b\<rparr>) key = queryAttribute s key"
  by (simp add: queryAttribute_def)

lemma queryAttributes_flag: "queryAttributes (s\<lparr>failed := b\<rparr>) = queryAttributes s"
  by (simp add: queryAttributes_def fun_eq_iff)

lemma decodeRow_flag: "decodeRow (s\<lparr>failed := b\<rparr>) r = decodeRow s r"
  by (simp add: decodeRow_def queryAttributes_flag Let_def)

lemma getAttr_flag:
  "map_sum id fst (getAttr (s\<lparr>failed := b\<rparr>) key) = map_sum id fst (getAttr s key)"
  by (simp add: getAttr_def queryAttribute_flag decodeRow_flag split: option.splits sum.splits)

lemma getId_flag: "fst (getId (s\<lparr>failed := b\<rparr>) key) = fst (getId s key)"
  by (simp add: getId_def queryAttribute_flag split: option.splits)

section \<open>Properties\<close>

subsection \<open>The codec\<close>

text \<open>
  A leaf written at a fresh key of a healthy store reads back as the decoding of the row
  that was inserted for it.
\<close>

lemma getAttr_after_setLeaf:
  assumes "\<not> failed s" and "keyRows (rows s) key = []" and "\<not> isAttrs v"
  shows "writeThenRead s key v
           = map_sum id (\<lambda>hit. Some (snd hit))
               (decodeRow (s\<lparr>rows := rows s @ [leafRow (seq s + 1) key v],
                            seq := seq s + 1, lastInsertedRowId := seq s + 1\<rparr>)
                          (leafRow (seq s + 1) key v))"
proof -
  define s1 where "s1 = s\<lparr>rows := rows s @ [leafRow (seq s + 1) key v],
                            seq := seq s + 1, lastInsertedRowId := seq s + 1\<rparr>"
  have "setValue s key v = setLeaf s key v"
    using assms(3) by (cases v) (simp_all add: setValue_def isAttrs_def)
  then have w: "setValue s key v = Inr (seq s + 1, s1)"
    using setLeaf_fresh [OF assms] by (simp add: s1_def)
  have "keyRows (rows s1) key = [leafRow (seq s + 1) key v]"
    using assms(2) by (simp add: s1_def keyRows_def leafRow_def)
  then have "queryAttribute s1 key = Some (leafRow (seq s + 1) key v)"
    by (simp add: queryAttribute_def)
  then show ?thesis
    using w by (simp add: writeThenRead_def getAttr_def s1_def split: sum.splits)
qed

text \<open>
  C1. Writing a value at a key and reading the key back should give an equal value, and
  for a \<open>Bool\<close> the stored literal should give back the same boolean. It does not:
  \<open>fromVariant\<close> stores \<open>0\<close> for true and \<open>1\<close> for false, and \<open>getAttr\<close> reads any
  number but zero as true, so \<open>Bool true\<close> written into an empty store at the root key
  reads back as \<open>Bool false\<close>.
\<close>

theorem writeThenRead_Bool_true:
  "writeThenRead emptyDb (0, '''') (Bool_t True) = Inr (Some (Bool_t False))"
  by (simp add: writeThenRead_def store_defs codec_defs example_defs)

text \<open>The same for false.\<close>

lemma writeThenRead_Bool_false:
  "writeThenRead emptyDb (0, '''') (Bool_t False) = Inr (Some (Bool_t True))"
  by (simp add: writeThenRead_def store_defs codec_defs example_defs)

text \<open>
  In every healthy store and at every fresh key a boolean reads back negated, while a
  string without context and the four values without a payload read back as they were
  written.
\<close>

lemma writeThenRead_Bool:
  assumes "\<not> failed s" and "keyRows (rows s) key = []"
  shows "writeThenRead s key (Bool_t b) = Inr (Some (Bool_t (\<not> b)))"
  using getAttr_after_setLeaf [OF assms, of "Bool_t b"]
  by (cases b)
     (simp_all add: isAttrs_def decodeRow_def leafRow_def castAttrType_def getInt_def isSpace_def)

lemma writeThenRead_String_no_context:
  assumes "\<not> failed s" and "keyRows (rows s) key = []"
  shows "writeThenRead s key (String_t txt []) = Inr (Some (String_t txt []))"
  using getAttr_after_setLeaf [OF assms, of "String_t txt []"]
  by (simp add: isAttrs_def decodeRow_def leafRow_def castAttrType_def codec_defs)

lemma writeThenRead_sentinel:
  assumes "\<not> failed s" and "keyRows (rows s) key = []"
    and "v \<in> {Placeholder_t, Missing_t, Misc_t, Failed_t}"
  shows "writeThenRead s key v = Inr (Some v)"
  using getAttr_after_setLeaf [OF assms(1,2), of v] assms(3)
  by (auto simp: isAttrs_def decodeRow_def leafRow_def castAttrType_def)

text \<open>
  C2. Decoding the serialized context should give the list back. It does not when the
  list has two entries: \<open>serializeContext\<close> puts a space between the entries, while
  \<open>getAttr\<close> cuts the column at semicolons, so the text of two entries comes back as
  one entry.
\<close>

theorem serializeContext_two_entries:
  "serializeContext \<lparr>raw_type = String, raw_value = Some ''s'',
                      raw_context = [(''a'', ''b''), (''c'', ''d'')]\<rparr> = ''a:b c:d''
   \<and> decodeContextColumn (Some ''a:b c:d'') = [(''a'', ''b c:d'')]"
  by (simp add: codec_defs)

text \<open>The empty context does serialize to the empty text.\<close>

lemma serializeContext_empty:
  "raw_context rv = [] \<Longrightarrow> serializeContext rv = []"
  by (simp add: serializeContext_def)

subsection \<open>Attribute sets\<close>

text \<open>
  C7. Declaring \<open>FullAttrs\<close> with the names \<open>a\<close>, \<open>b\<close>, \<open>c\<close> at a key through
  \<open>setAttrs\<close> should insert the \<open>FullAttrs\<close> row and one \<open>Placeholder\<close> row per
  name, after which each name reads as \<open>Placeholder\<close> under the key and the key reads as
  \<open>FullAttrs\<close> with those names. It does not when the key already has a row, which is
  the case of every key that \<open>Cursor::setValue\<close> passes, and so of the step from
  \<open>Placeholder\<close> to \<open>FullAttrs\<close>: the insert of the \<open>FullAttrs\<close> row meets the unique
  constraint, nothing is inserted, the store fails and the result is the id 0. Afterwards
  the key still reads as \<open>Placeholder\<close> and no name has a row under it.
\<close>

theorem setAttrs_on_placeholder:
  "setAttrs placeholderDb (1, ''a'') [''a'', ''b'', ''c''] = Inr (0, failedDb)
   \<and> Cursor_setValue \<lparr>db = Some placeholderDb, rootSymbol = ''''\<rparr> placeholderCursor
        (Attrs [''a'', ''b'', ''c''])
      = Inr (Cursor (Some (rootCursor, ''a'')) (0, Attrs [''a'', ''b'', ''c'']),
             \<lparr>db = Some failedDb, rootSymbol = ''''\<rparr>)
   \<and> failed failedDb
   \<and> rows failedDb = rows placeholderDb
   \<and> getAttr failedDb (1, ''a'')
      = Inr (Some (2, Placeholder_t), logQuery failedDb (1, ''a''))
   \<and> getAttr failedDb (2, ''a'') = Inr (None, logQuery failedDb (2, ''a''))"
  by (simp add: cursor_defs store_defs codec_defs example_defs)

text \<open>
  Nor does it when the id of the new row does not fit 32 bits: the readers pass the id
  through \<open>AttrType\<close>, so the key reads back under the id 0, with the names found under
  that id.
\<close>

lemma setAttrs_past_32_bits:
  "setAttrs bigDb (5, ''k'') [''a'']
     = Inr (4294967296,
            bigDb\<lparr>rows := [mkRow 4294967296 5 ''k'' FullAttrs None None,
                            mkRow 4294967297 4294967296 ''a'' Placeholder None None],
                   seq := 4294967297, lastInsertedRowId := 4294967297\<rparr>)
   \<and> map_sum id fst
        (getAttr (bigDb\<lparr>rows := [mkRow 4294967296 5 ''k'' FullAttrs None None,
                                  mkRow 4294967297 4294967296 ''a'' Placeholder None None],
                         seq := 4294967297, lastInsertedRowId := 4294967297\<rparr>) (5, ''k''))
      = Inr (Some (0, Attrs []))"
  by (simp add: store_defs codec_defs mkRow_def bigDb_def)

text \<open>
  At a fresh key of a healthy store the contract holds. \<open>setAttrs\<close> inserts one
  \<open>FullAttrs\<close> row for the key and one \<open>Placeholder\<close> row per name under the new row,
  and nothing else; the rows are added to the standing transaction only (the committed
  table is unchanged). Afterwards reading each name under the new row gives
  \<open>Placeholder\<close>, and reading the key gives \<open>FullAttrs\<close> with exactly the declared
  names, as names only. The names are a set, so the list is distinct; the new row's id is
  the next value of the autoincrement counter, under which no row exists yet and which is
  below \<open>2 ^ 32\<close>.
\<close>

lemma setAttrs_fresh_contract:
  assumes healthy: "\<not> failed s"
    and fresh: "keyRows (rows s) key = []"
    and names: "distinct names"
    and parent_known: "fst key \<noteq> seq s + 1"
    and no_orphans: "filter (\<lambda>r. row_parent r = seq s + 1) (rows s) = []"
    and bound: "seq s + 1 < 2 ^ 32"
  shows "\<exists>s'. setAttrs s key names = Inr (seq s + 1, s')
           \<and> rows s' = rows s
                @ \<lparr>row_id = seq s + 1, row_parent = fst key, row_name = snd key,
                    row_type = attrTypeCode FullAttrs, row_value = None, row_context = None\<rparr>
                # childRows (seq s + 1) (seq s + 1) names
           \<and> committed s' = committed s \<and> \<not> failed s'
           \<and> (\<forall>name \<in> set names. \<exists>childId s''.
                 getAttr s' (seq s + 1, name) = Inr (Some (childId, Placeholder_t), s''))
           \<and> (\<exists>ns s''. getAttr s' key = Inr (Some (seq s + 1, Attrs ns), s'')
                 \<and> set ns = set names)"
proof -
  define prow where "prow = \<lparr>row_id = seq s + 1, row_parent = fst key, row_name = snd key,
      row_type = attrTypeCode FullAttrs, row_value = None, row_context = None\<rparr>"
  define s1 where "s1 = s\<lparr>rows := rows s @ [prow], seq := seq s + 1,
      lastInsertedRowId := seq s + 1\<rparr>"
  have ins: "insertAttribute s (fst key) (snd key) FullAttrs None = Inr s1"
    using fresh by (simp add: insertAttribute_def execInsert_fresh s1_def prow_def)
  have old_none: "keyRows (rows s) (seq s + 1, name) = []" for name
    using no_orphans by (auto simp: keyRows_def filter_empty_conv)
  have "\<forall>name \<in> set names. keyRows (rows s1) (seq s + 1, name) = []"
    using old_none parent_known by (simp add: s1_def keyRows_def prow_def)
  with insertChildren_fresh [OF names, of s1 "seq s + 1"] obtain s' where
    ch: "insertChildren s1 (seq s + 1) names = (Inr (seq s + 1), s')"
    and rows': "rows s' = rows s1 @ childRows (seq s + 1) (seq s1) names"
    and rest: "failed s' = failed s1" "committed s' = committed s1"
    by blast
  have set: "setAttrs s key names = Inr (seq s + 1, s')"
    using healthy ins ch
    by (simp add: setAttrs_def doSQLite_def setAttrsBody_def s1_def)
  have rows_eq: "rows s' = rows s @ prow # childRows (seq s + 1) (seq s + 1) names"
    using rows' by (simp add: s1_def)
  have cast: "castAttrType (seq s + 1) = seq s + 1"
    using bound by (simp add: castAttrType_def)
  have children: "\<exists>childId s''. getAttr s' (seq s + 1, name) = Inr (Some (childId, Placeholder_t), s'')"
    if mem: "name \<in> set names" for name
  proof -
    have "keyRows (rows s') (seq s + 1, name)
            = keyRows (childRows (seq s + 1) (seq s + 1) names) (seq s + 1, name)"
      using old_none [of name] parent_known
      by (simp add: rows_eq keyRows_def prow_def)
    moreover obtain r rs where
      rrs: "keyRows (childRows (seq s + 1) (seq s + 1) names) (seq s + 1, name) = r # rs"
      using childRows_keyRows_present [OF mem] by (meson list.exhaust)
    moreover have "r \<in> set (childRows (seq s + 1) (seq s + 1) names)"
    proof -
      have "r \<in> set (keyRows (childRows (seq s + 1) (seq s + 1) names) (seq s + 1, name))"
        unfolding rrs by simp
      then show ?thesis by (simp add: keyRows_def)
    qed
    then have "row_type r = 0" by (rule childRows_type)
    ultimately show ?thesis
      by (simp add: getAttr_def queryAttribute_def decodeRow_Placeholder)
  qed
  have "keyRows (rows s') key = prow # keyRows (childRows (seq s + 1) (seq s + 1) names) key"
    using fresh by (simp add: rows_eq keyRows_def prow_def)
  moreover have "queryAttributes s' (seq s + 1) = sort names"
    using no_orphans parent_known
    by (simp add: queryAttributes_def rows_eq prow_def childRows_filter_parent childRows_names)
  ultimately have "getAttr s' key = Inr (Some (seq s + 1, Attrs (sort names)), logQuery s' key)"
    using cast
    by (simp add: getAttr_def queryAttribute_def decodeRow_FullAttrs prow_def)
  moreover have "set (sort names) = set names" by simp
  ultimately have parent:
    "\<exists>ns s''. getAttr s' key = Inr (Some (seq s + 1, Attrs ns), s'') \<and> set ns = set names"
    by blast
  show ?thesis
    using set rows_eq rest healthy children parent
    by (intro exI [of _ s']) (simp add: s1_def prow_def)
qed

text \<open>The contract at the names \<open>a\<close>, \<open>b\<close>, \<open>c\<close> declared at the root of the empty store.\<close>

lemma setAttrs_fresh_contract_example:
  "\<not> failed emptyDb \<and> keyRows (rows emptyDb) (0, '''') = []
   \<and> distinct [''a'', ''b'', ''c'']
   \<and> (\<exists>s'. setAttrs emptyDb (0, '''') [''a'', ''b'', ''c''] = Inr (1, s')
          \<and> (\<exists>childId s''. getAttr s' (1, ''b'') = Inr (Some (childId, Placeholder_t), s''))
          \<and> (\<exists>ns s''. getAttr s' (0, '''') = Inr (Some (1, Attrs ns), s'')
                \<and> set ns = {''a'', ''b'', ''c''}))"
proof -
  have h1: "\<not> failed emptyDb" by (simp add: emptyDb_def)
  have h2: "keyRows (rows emptyDb) (0, '''') = []" by (simp add: emptyDb_def keyRows_def)
  have h3: "distinct [''a'', ''b'', ''c'']" by simp
  have h4: "fst (0::nat, '''') \<noteq> seq emptyDb + 1" by (simp add: emptyDb_def)
  have h5: "filter (\<lambda>r. row_parent r = seq emptyDb + 1) (rows emptyDb) = []"
    by (simp add: emptyDb_def)
  have h6: "seq emptyDb + 1 < 2 ^ 32" by (simp add: emptyDb_def)
  have s0: "seq emptyDb + 1 = 1" by (simp add: emptyDb_def)
  from setAttrs_fresh_contract [OF h1 h2 h3 h4 h5 h6] obtain s' where
    a: "setAttrs emptyDb (0, '''') [''a'', ''b'', ''c''] = Inr (seq emptyDb + 1, s')"
    and b: "\<forall>name \<in> set [''a'', ''b'', ''c'']. \<exists>childId s''.
              getAttr s' (seq emptyDb + 1, name) = Inr (Some (childId, Placeholder_t), s'')"
    and c: "\<exists>ns s''. getAttr s' (0, '''') = Inr (Some (seq emptyDb + 1, Attrs ns), s'')
              \<and> set ns = set [''a'', ''b'', ''c'']"
    by (rule exE) (elim conjE, rule that, assumption+)
  have mem: "''b'' \<in> set [''a'', ''b'', ''c'']" by simp
  from b mem have "\<exists>childId s''.
      getAttr s' (seq emptyDb + 1, ''b'') = Inr (Some (childId, Placeholder_t), s'')"
    by (rule bspec)
  then have b': "\<exists>childId s''. getAttr s' (1, ''b'') = Inr (Some (childId, Placeholder_t), s'')"
    by (simp only: s0)
  have set_eq: "set [''a'', ''b'', ''c''] = {''a'', ''b'', ''c''}" by simp
  from c have c': "\<exists>ns s''. getAttr s' (0, '''') = Inr (Some (1, Attrs ns), s'')
              \<and> set ns = {''a'', ''b'', ''c''}"
    by (simp only: s0 set_eq)
  from a have a': "setAttrs emptyDb (0, '''') [''a'', ''b'', ''c''] = Inr (1, s')"
    by (simp only: s0)
  have ex: "\<exists>s'. setAttrs emptyDb (0, '''') [''a'', ''b'', ''c''] = Inr (1, s')
          \<and> (\<exists>childId s''. getAttr s' (1, ''b'') = Inr (Some (childId, Placeholder_t), s''))
          \<and> (\<exists>ns s''. getAttr s' (0, '''') = Inr (Some (1, Attrs ns), s'')
                \<and> set ns = {''a'', ''b'', ''c''})"
    using a' b' c' by (intro exI [of _ s'] conjI)
  show ?thesis
    using h1 h2 h3 ex by (intro conjI)
qed

subsection \<open>Navigation\<close>

text \<open>
  C9. In a cache with a store, \<open>maybeGetAttr\<close> for a name that has no row under the
  cursor's row returns absent. When \<open>x\<close> leads to a cursor under whose row \<open>y\<close> has
  no row, \<open>findAlongAttrPath\<close> on a path that starts with \<open>x\<close>, \<open>y\<close>, \<open>z\<close> returns
  absent, and the queries it has run are the one for \<open>x\<close> and the one for \<open>y\<close>:
  none for \<open>z\<close>.
\<close>

theorem missing_path:
  assumes store: "db cache = Some s"
  shows "(keyRows (rows s) (fst (cachedValue cur), name) = [] \<longrightarrow>
            maybeGetAttr cache cur name
              = Inr (None, cache\<lparr>db := Some (logQuery s (fst (cachedValue cur), name))\<rparr>))
       \<and> (maybeGetAttr cache cur x = Inr (Some cx, cache1)
            \<and> keyRows (rows s) (fst (cachedValue cx), y) = [] \<longrightarrow>
            findAlongAttrPath cache cur (x # y # z # rest)
              = Inr (None, cache\<lparr>db := Some (logQuery (logQuery s (fst (cachedValue cur), x))
                                                  (fst (cachedValue cx), y))\<rparr>)
            \<and> queries (logQuery (logQuery s (fst (cachedValue cur), x)) (fst (cachedValue cx), y))
              = queries s @ [(fst (cachedValue cur), x), (fst (cachedValue cx), y)])"
proof (intro conjI impI)
  assume "keyRows (rows s) (fst (cachedValue cur), name) = []"
  then show "maybeGetAttr cache cur name
      = Inr (None, cache\<lparr>db := Some (logQuery s (fst (cachedValue cur), name))\<rparr>)"
    using store by (simp add: maybeGetAttr_def getAttr_absent)
next
  assume a: "maybeGetAttr cache cur x = Inr (Some cx, cache1)
             \<and> keyRows (rows s) (fst (cachedValue cx), y) = []"
  define s1 where "s1 = logQuery s (fst (cachedValue cur), x)"
  have c1: "cache1 = cache\<lparr>db := Some s1\<rparr>"
    using maybeGetAttr_state [OF store] a by (simp add: s1_def)
  have "keyRows (rows s1) (fst (cachedValue cx), y) = []"
    using a by (simp add: s1_def logQuery_def)
  then have "maybeGetAttr cache1 cx y
      = Inr (None, cache\<lparr>db := Some (logQuery s1 (fst (cachedValue cx), y))\<rparr>)"
    by (simp add: c1 maybeGetAttr_def getAttr_absent)
  with a show "findAlongAttrPath cache cur (x # y # z # rest)
      = Inr (None, cache\<lparr>db := Some (logQuery (logQuery s (fst (cachedValue cur), x))
                                          (fst (cachedValue cx), y))\<rparr>)"
    by (simp add: s1_def)
next
  show "queries (logQuery (logQuery s (fst (cachedValue cur), x)) (fst (cachedValue cx), y))
      = queries s @ [(fst (cachedValue cur), x), (fst (cachedValue cx), y)]"
    by (simp add: logQuery_def)
qed

text \<open>
  The same in the store with a root and its placeholder child \<open>a\<close>: \<open>zz\<close> is absent
  under the root, and the path \<open>a\<close>, \<open>y\<close>, \<open>z\<close> stops at \<open>y\<close>.
\<close>

theorem missing_path_witness:
  "db \<lparr>db = Some placeholderDb, rootSymbol = ''''\<rparr> = Some placeholderDb
   \<and> keyRows (rows placeholderDb) (fst (cachedValue rootCursor), ''zz'') = []
   \<and> maybeGetAttr \<lparr>db = Some placeholderDb, rootSymbol = ''''\<rparr> rootCursor ''zz''
       = Inr (None, \<lparr>db = Some (logQuery placeholderDb (1, ''zz'')), rootSymbol = ''''\<rparr>)
   \<and> maybeGetAttr \<lparr>db = Some placeholderDb, rootSymbol = ''''\<rparr> rootCursor ''a''
       = Inr (Some placeholderCursor,
              \<lparr>db = Some (logQuery placeholderDb (1, ''a'')), rootSymbol = ''''\<rparr>)
   \<and> keyRows (rows placeholderDb) (fst (cachedValue placeholderCursor), ''y'') = []
   \<and> findAlongAttrPath \<lparr>db = Some placeholderDb, rootSymbol = ''''\<rparr> rootCursor
         [''a'', ''y'', ''z'']
       = Inr (None, \<lparr>db = Some (logQuery (logQuery placeholderDb (1, ''a'')) (2, ''y'')),
                      rootSymbol = ''''\<rparr>)"
proof -
  let ?cache = "\<lparr>db = Some placeholderDb, rootSymbol = ''''\<rparr>"
  let ?cache1 = "\<lparr>db = Some (logQuery placeholderDb (1, ''a'')), rootSymbol = ''''\<rparr>"
  have h0: "db ?cache = Some placeholderDb" by simp
  have h1: "keyRows (rows placeholderDb) (fst (cachedValue rootCursor), ''zz'') = []"
    by (simp add: example_defs keyRows_def)
  have h2: "maybeGetAttr ?cache rootCursor ''a'' = Inr (Some placeholderCursor, ?cache1)"
    by (simp add: cursor_defs store_defs codec_defs example_defs)
  have h3: "keyRows (rows placeholderDb) (fst (cachedValue placeholderCursor), ''y'') = []"
    by (simp add: example_defs keyRows_def)
  have ids: "fst (cachedValue rootCursor) = 1" "fst (cachedValue placeholderCursor) = 2"
    by (simp_all add: example_defs)
  note inst = missing_path [OF h0, of rootCursor "''zz''" "''a''" placeholderCursor ?cache1
      "''y''" "''z''" "[]"]
  from inst h1 have a: "maybeGetAttr ?cache rootCursor ''zz''
       = Inr (None, ?cache\<lparr>db := Some (logQuery placeholderDb (fst (cachedValue rootCursor), ''zz''))\<rparr>)"
    by blast
  from inst h2 h3 have b: "findAlongAttrPath ?cache rootCursor [''a'', ''y'', ''z'']
       = Inr (None, ?cache\<lparr>db := Some (logQuery (logQuery placeholderDb (fst (cachedValue rootCursor), ''a''))
                                  (fst (cachedValue placeholderCursor), ''y''))\<rparr>)"
    by blast
  show ?thesis
    using h0 h1 h2 h3 a b by (simp add: ids)
qed

text \<open>
  C10. For every cursor, \<open>findAlongAttrPath\<close> on the empty path returns that same cursor,
  never absent, and leaves the cache as it was: no query is run (the list of queries
  is part of the cache's state), and this holds even when the cache has no store.
\<close>

theorem findAlongAttrPath_empty:
  "findAlongAttrPath cache cur [] = Inr (Some cur, cache)"
  by simp

subsection \<open>Overwriting a node\<close>

text \<open>
  C3. \<open>Cursor::setValue\<close> on a node whose key already holds a \<open>Placeholder\<close> row should
  overwrite the row, set the memo to the new id and the value, and leave the store
  healthy. It does not: the insert statement meets the unique constraint on
  \<open>(parent, name)\<close>, \<open>doSQLite\<close> catches the error, sets \<open>failed\<close> and returns 0. The
  memo becomes \<open>(0, v)\<close>, the row is unchanged and a read of the key still gives
  \<open>Placeholder\<close>.
\<close>

theorem Cursor_setValue_on_placeholder:
  "Cursor_setValue \<lparr>db = Some placeholderDb, rootSymbol = ''''\<rparr> placeholderCursor Missing_t
     = Inr (Cursor (Some (rootCursor, ''a'')) (0, Missing_t),
            \<lparr>db = Some failedDb, rootSymbol = ''''\<rparr>)
   \<and> failed failedDb
   \<and> getAttr failedDb (1, ''a'')
     = Inr (Some (2, Placeholder_t), logQuery failedDb (1, ''a''))"
  by (simp add: cursor_defs store_defs codec_defs example_defs)

text \<open>
  The same for every value, every cursor and every healthy store in which the cursor's key
  already has a row: the write fails, the flag is set, the table is unchanged and the memo
  holds the id 0.
\<close>

lemma Cursor_setValue_taken:
  assumes "db cache = Some s" and "\<not> failed s"
    and "keyRows (rows s) (getKey cache (parent cur)) \<noteq> []"
  shows "Cursor_setValue cache cur v
           = Inr (Cursor (parent cur) (0, v), cache\<lparr>db := Some (s\<lparr>failed := True\<rparr>)\<rparr>)"
  using assms by (simp add: Cursor_setValue_def setValue_taken)

subsection \<open>Declaring a cursor\<close>

text \<open>
  Against C5 as stated: the memo of a declared cursor does not hold the stored value
  when the key already exists. The root of this store holds \<open>Missing\<close>; a cursor
  declared for the root with the candidate \<open>Misc\<close> writes nothing, and its memo holds
  \<open>Misc\<close>.
\<close>

theorem declareCursor_keeps_candidate:
  "declareCursor \<lparr>db = Some missingDb, rootSymbol = ''''\<rparr> None Misc_t
     = Inr (Cursor None (1, Misc_t), \<lparr>db = Some (logQuery missingDb (0, '''')), rootSymbol = ''''\<rparr>)
   \<and> getCachedValue (Cursor None (1, Misc_t)) = Misc_t
   \<and> getAttr missingDb (0, '''') = Inr (Some (1, Missing_t), logQuery missingDb (0, ''''))
   \<and> Misc_t \<noteq> Missing_t"
  by (simp add: cursor_defs store_defs codec_defs example_defs)

text \<open>
  C5, as the code has it. In a cache with a store, the constructor that declares a cursor
  from a candidate value always succeeds, and \<open>getCachedValue\<close> returns the candidate
  whether or not the key already had a row. The id in the memo is the one that
  \<open>setIfAbsent\<close> returned. When the key had a row, it is that row's id as \<open>getId\<close>
  reads it (the id itself when it is below \<open>2 ^ 32\<close>), and the table is unchanged.
  When the key had no row and the store is healthy after the call, it is the next id of
  the autoincrement counter, and the key then has a row with that id and the type of the
  candidate. When the key had no row and the store is failed after the call, it is 0; if
  the store had failed before the call, the table is unchanged.
\<close>

theorem declareCursor_memo:
  assumes store: "db cache = Some s"
  shows "\<exists>rowId s'.
           setIfAbsent s (getKey cache par) v = Inr (rowId, s')
         \<and> declareCursor cache par v = Inr (Cursor par (rowId, v), cache\<lparr>db := Some s'\<rparr>)
         \<and> getCachedValue (Cursor par (rowId, v)) = v
         \<and> (\<forall>r. queryAttribute s (getKey cache par) = Some r \<longrightarrow>
               rowId = castAttrType (row_id r) \<and> (row_id r < 2 ^ 32 \<longrightarrow> rowId = row_id r)
               \<and> rows s' = rows s)
         \<and> (queryAttribute s (getKey cache par) = None \<and> failed s \<longrightarrow>
               rowId = 0 \<and> rows s' = rows s)
         \<and> (queryAttribute s (getKey cache par) = None \<and> failed s' \<longrightarrow> rowId = 0)
         \<and> (queryAttribute s (getKey cache par) = None \<and> \<not> failed s' \<longrightarrow>
               rowId = seq s + 1
               \<and> (\<exists>r. queryAttribute s' (getKey cache par) = Some r \<and> row_id r = seq s + 1
                      \<and> row_type r = attrTypeCode (raw_type (fromVariant v))))"
proof (cases "queryAttribute s (getKey cache par)")
  case None
  define key where "key = getKey cache par"
  define s0 where "s0 = logQuery s key"
  have s0: "rows s0 = rows s" "seq s0 = seq s" "failed s0 = failed s"
    by (simp_all add: s0_def logQuery_def)
  have fresh: "keyRows (rows s0) key = []"
    using None by (simp add: s0 key_def queryAttribute_def split: list.splits)
  from setValue_fresh_outcome [OF fresh, of v] obtain rowId s' where
    w: "setValue s0 key v = Inr (rowId, s')"
    and a: "failed s0 \<longrightarrow> rowId = 0 \<and> rows s' = rows s0 \<and> failed s'"
    and b: "failed s' \<longrightarrow> rowId = 0"
    and c: "\<not> failed s' \<longrightarrow> rowId = seq s0 + 1
                \<and> (\<exists>r. queryAttribute s' key = Some r \<and> row_id r = seq s0 + 1
                       \<and> row_type r = attrTypeCode (raw_type (fromVariant v)))"
    by (elim exE conjE) (rule that, assumption+)
  have "setIfAbsent s key v = Inr (rowId, s')"
    using None w by (simp add: setIfAbsent_def getId_def key_def s0_def)
  then show ?thesis
    using None store a b c
    by (intro exI [of _ rowId] exI [of _ s'])
       (simp add: declareCursor_def getCachedValue_def key_def [symmetric] s0)
next
  case (Some r)
  then have "setIfAbsent s (getKey cache par) v
               = Inr (castAttrType (row_id r), logQuery s (getKey cache par))"
    by (simp add: setIfAbsent_def getId_def)
  with Some store show ?thesis
    by (simp add: declareCursor_def getCachedValue_def logQuery_def castAttrType_def)
qed

text \<open>
  The same with the candidate \<open>Misc\<close> at three stores: the root already holds
  \<open>Missing\<close>; the store is empty and the write happens; the store has failed.
\<close>

theorem declareCursor_memo_witness:
  "db \<lparr>db = Some missingDb, rootSymbol = ''''\<rparr> = Some missingDb
   \<and> (\<exists>rowId s'.
         declareCursor \<lparr>db = Some missingDb, rootSymbol = ''''\<rparr> None Misc_t
           = Inr (Cursor None (rowId, Misc_t), \<lparr>db = Some s', rootSymbol = ''''\<rparr>)
       \<and> getCachedValue (Cursor None (rowId, Misc_t)) = Misc_t
       \<and> rowId = 1 \<and> rows s' = rows missingDb)
   \<and> (\<exists>rowId s'.
         declareCursor \<lparr>db = Some emptyDb, rootSymbol = ''''\<rparr> None Misc_t
           = Inr (Cursor None (rowId, Misc_t), \<lparr>db = Some s', rootSymbol = ''''\<rparr>)
       \<and> \<not> failed s' \<and> rowId = 1)
   \<and> (\<exists>rowId s'.
         declareCursor \<lparr>db = Some failedDb, rootSymbol = ''''\<rparr> (Some (rootCursor, ''b'')) Misc_t
           = Inr (Cursor (Some (rootCursor, ''b'')) (rowId, Misc_t),
                  \<lparr>db = Some s', rootSymbol = ''''\<rparr>)
       \<and> failed s' \<and> rowId = 0 \<and> rows s' = rows failedDb)"
proof (intro conjI)
  show "db \<lparr>db = Some missingDb, rootSymbol = ''''\<rparr> = Some missingDb" by simp
next
  let ?cache = "\<lparr>db = Some missingDb, rootSymbol = ''''\<rparr>"
  have h0: "db ?cache = Some missingDb" by simp
  have q: "queryAttribute missingDb (getKey ?cache None)
             = Some (mkRow 1 0 '''' Missing None (Some ''''))"
    by (simp add: getKey_def queryAttribute_def keyRows_def example_defs)
  have c: "row_id (mkRow 1 0 '''' Missing None (Some '''')) = 1" "(1::nat) < 2 ^ 32"
    by (simp_all add: mkRow_def)
  from declareCursor_memo [OF h0, of None Misc_t] obtain rowId s' where
    d: "declareCursor ?cache None Misc_t
          = Inr (Cursor None (rowId, Misc_t), ?cache\<lparr>db := Some s'\<rparr>)"
    and g: "getCachedValue (Cursor None (rowId, Misc_t)) = Misc_t"
    and r: "\<forall>r. queryAttribute missingDb (getKey ?cache None) = Some r \<longrightarrow>
               rowId = castAttrType (row_id r) \<and> (row_id r < 2 ^ 32 \<longrightarrow> rowId = row_id r)
               \<and> rows s' = rows missingDb"
    by (elim exE conjE) (rule that, assumption+)
  from r q c have "rowId = 1 \<and> rows s' = rows missingDb" by simp
  with d g show "\<exists>rowId s'.
         declareCursor ?cache None Misc_t
           = Inr (Cursor None (rowId, Misc_t), \<lparr>db = Some s', rootSymbol = ''''\<rparr>)
       \<and> getCachedValue (Cursor None (rowId, Misc_t)) = Misc_t
       \<and> rowId = 1 \<and> rows s' = rows missingDb"
    by (intro exI [of _ rowId] exI [of _ s']) simp
next
  let ?cache = "\<lparr>db = Some emptyDb, rootSymbol = ''''\<rparr>"
  have h0: "db ?cache = Some emptyDb" by simp
  have q: "queryAttribute emptyDb (getKey ?cache None) = None"
    by (simp add: getKey_def queryAttribute_def keyRows_def example_defs)
  have sq: "seq emptyDb + 1 = 1" by (simp add: emptyDb_def)
  from declareCursor_memo [OF h0, of None Misc_t] obtain rowId s' where
    d: "declareCursor ?cache None Misc_t
          = Inr (Cursor None (rowId, Misc_t), ?cache\<lparr>db := Some s'\<rparr>)"
    and w: "queryAttribute emptyDb (getKey ?cache None) = None \<and> \<not> failed s' \<longrightarrow>
               rowId = seq emptyDb + 1
               \<and> (\<exists>r. queryAttribute s' (getKey ?cache None) = Some r \<and> row_id r = seq emptyDb + 1
                      \<and> row_type r = attrTypeCode (raw_type (fromVariant Misc_t)))"
    by (elim exE conjE) (rule that, assumption+)
  from d have nf: "\<not> failed s'"
    by (auto simp: cursor_defs store_defs codec_defs example_defs)
  from w q nf sq have "rowId = 1" by simp
  with d nf show "\<exists>rowId s'.
         declareCursor ?cache None Misc_t
           = Inr (Cursor None (rowId, Misc_t), \<lparr>db = Some s', rootSymbol = ''''\<rparr>)
       \<and> \<not> failed s' \<and> rowId = 1"
    by (intro exI [of _ rowId] exI [of _ s']) simp
next
  let ?cache = "\<lparr>db = Some failedDb, rootSymbol = ''''\<rparr>"
  let ?par = "Some (rootCursor, ''b'')"
  have h0: "db ?cache = Some failedDb" by simp
  have q: "queryAttribute failedDb (getKey ?cache ?par) = None"
    by (simp add: getKey_def queryAttribute_def keyRows_def example_defs)
  have f: "failed failedDb" by (simp add: failedDb_def)
  from declareCursor_memo [OF h0, of ?par Misc_t] obtain rowId s' where
    d: "declareCursor ?cache ?par Misc_t
          = Inr (Cursor ?par (rowId, Misc_t), ?cache\<lparr>db := Some s'\<rparr>)"
    and w: "queryAttribute failedDb (getKey ?cache ?par) = None \<and> failed failedDb \<longrightarrow>
               rowId = 0 \<and> rows s' = rows failedDb"
    by (elim exE conjE) (rule that, assumption+)
  from d have ff: "failed s'"
    by (auto simp: cursor_defs store_defs codec_defs example_defs)
  from w q f have "rowId = 0 \<and> rows s' = rows failedDb" by simp
  with d ff show "\<exists>rowId s'.
         declareCursor ?cache ?par Misc_t
           = Inr (Cursor ?par (rowId, Misc_t), \<lparr>db = Some s', rootSymbol = ''''\<rparr>)
       \<and> failed s' \<and> rowId = 0 \<and> rows s' = rows failedDb"
    by (intro exI [of _ rowId] exI [of _ s']) simp
qed

subsection \<open>Idempotent declare\<close>

text \<open>
  C4. Two calls of \<open>setIfAbsent\<close> on one key should return the same id, the second should
  write nothing, and reading the key back should give the value of the first call. The
  first two hold; the third does not when the first value is a boolean: after
  \<open>setIfAbsent\<close> with \<open>Bool true\<close> and then with \<open>Missing\<close> at the root key of the
  empty store, both calls return the id 1 and the second leaves the table as it was, but
  the key reads back as \<open>Bool false\<close>.
\<close>

theorem setIfAbsent_twice_Bool:
  "setIfAbsent emptyDb (0, '''') (Bool_t True) = Inr (1, boolDb)
   \<and> setIfAbsent boolDb (0, '''') Missing_t = Inr (1, logQuery boolDb (0, ''''))
   \<and> rows (logQuery boolDb (0, '''')) = rows boolDb
   \<and> getAttr (logQuery boolDb (0, '''')) (0, '''')
       = Inr (Some (1, Bool_t False), logQuery (logQuery boolDb (0, '''')) (0, ''''))"
  by (simp add: boolDb_def store_defs codec_defs example_defs)

text \<open>
  The part that holds, for every leaf value, every fresh key and every healthy store whose
  next id is below \<open>2 ^ 32\<close>: the first call inserts the row of the first value, the
  second call returns the same id and only runs its query.
\<close>

lemma setIfAbsent_first_writer_wins:
  assumes "\<not> failed s" and "keyRows (rows s) key = []" and "\<not> isAttrs v1"
    and "seq s + 1 < 2 ^ 32"
  shows "\<exists>s1. setIfAbsent s key v1 = Inr (seq s + 1, s1)
           \<and> rows s1 = rows s @ [leafRow (seq s + 1) key v1]
           \<and> setIfAbsent s1 key v2 = Inr (seq s + 1, logQuery s1 key)
           \<and> rows (logQuery s1 key) = rows s1"
proof -
  define s0 where "s0 = logQuery s key"
  define s1 where "s1 = s0\<lparr>rows := rows s0 @ [leafRow (seq s0 + 1) key v1],
                              seq := seq s0 + 1, lastInsertedRowId := seq s0 + 1\<rparr>"
  have s0: "\<not> failed s0" "keyRows (rows s0) key = []" "seq s0 = seq s" "rows s0 = rows s"
    using assms by (simp_all add: s0_def logQuery_def)
  have "setValue s0 key v1 = setLeaf s0 key v1"
    using assms(3) by (cases v1) (simp_all add: setValue_def isAttrs_def)
  then have w: "setValue s0 key v1 = Inr (seq s + 1, s1)"
    using setLeaf_fresh [OF s0(1) s0(2) assms(3)] by (simp add: s1_def s0)
  have first: "setIfAbsent s key v1 = Inr (seq s + 1, s1)"
    using assms(2) w by (simp add: setIfAbsent_def getId_absent s0_def)
  have "keyRows (rows s1) key = [leafRow (seq s + 1) key v1]"
    using s0 by (simp add: s1_def keyRows_def leafRow_def)
  then have "queryAttribute s1 key = Some (leafRow (seq s + 1) key v1)"
    by (simp add: queryAttribute_def)
  then have "getId s1 key = (Some (castAttrType (seq s + 1)), logQuery s1 key)"
    by (simp add: getId_def leafRow_def)
  then have second: "setIfAbsent s1 key v2 = Inr (seq s + 1, logQuery s1 key)"
    using assms(4) by (simp add: setIfAbsent_def castAttrType_def)
  show ?thesis
    using first second s0 by (intro exI [of _ s1]) (simp add: s1_def logQuery_def)
qed

subsection \<open>Sticky failure\<close>

text \<open>
  Against C6 as stated: a read after a failure is not a miss when the row exists. The
  write below fails and sets the flag, and \<open>getId\<close> and \<open>getAttr\<close> on the failed
  store still find the placeholder row.
\<close>

theorem reads_after_failure_hit:
  "setValue placeholderDb (1, ''a'') Missing_t = Inr (0, failedDb)
   \<and> failed failedDb
   \<and> getId failedDb (1, ''a'') = (Some 2, logQuery failedDb (1, ''a''))
   \<and> getAttr failedDb (1, ''a'') = Inr (Some (2, Placeholder_t), logQuery failedDb (1, ''a''))"
  by (simp add: failedDb_def store_defs codec_defs example_defs)

text \<open>
  C6, as the code has it. An \<open>SQLiteError\<close> raised by the body of a write sets the
  \<open>failed\<close> flag and the write returns the id 0. Once the flag is set, \<open>setLeaf\<close>,
  \<open>setAttrs\<close> and \<open>setValue\<close> return 0 and leave the store exactly as it was, and
  \<open>setIfAbsent\<close> writes nothing either (it returns the id of the row it finds, or 0);
  no operation clears the flag. The readers do not look at the flag: \<open>getId\<close> and
  \<open>getAttr\<close> answer as they would with the flag cleared, so a key that has a row is
  still a hit.
\<close>

theorem sticky_failure:
  "(\<not> failed s0 \<and> fst (body s0) = Inl SQLiteError \<longrightarrow>
      doSQLite s0 body = Inr (0, (snd (body s0))\<lparr>failed := True\<rparr>))
   \<and> (failed s \<longrightarrow>
        doSQLite s body = Inr (0, s)
      \<and> setAttrs s key attrs = Inr (0, s)
      \<and> setValue s key v = Inr (0, s)
      \<and> (\<not> isAttrs v \<longrightarrow> setLeaf s key v = Inr (0, s))
      \<and> setIfAbsent s key v
          = Inr (case queryAttribute s key of None \<Rightarrow> 0 | Some r \<Rightarrow> castAttrType (row_id r),
                 logQuery s key)
      \<and> failed (snd (getId s key))
      \<and> (\<forall>hit s'. getAttr s key = Inr (hit, s') \<longrightarrow> failed s')
      \<and> fst (getId s key) = fst (getId (s\<lparr>failed := False\<rparr>) key)
      \<and> map_sum id fst (getAttr s key) = map_sum id fst (getAttr (s\<lparr>failed := False\<rparr>) key)
      \<and> (\<forall>r. queryAttribute s key = Some r \<longrightarrow>
            getId s key = (Some (castAttrType (row_id r)), logQuery s key)))"
proof (intro conjI impI allI)
  assume "\<not> failed s0 \<and> fst (body s0) = Inl SQLiteError"
  then show "doSQLite s0 body = Inr (0, (snd (body s0))\<lparr>failed := True\<rparr>)"
    by (cases "body s0") (simp add: doSQLite_def)
next
  assume f: "failed s"
  show "doSQLite s body = Inr (0, s)" using f by (rule doSQLite_failed)
  show "setAttrs s key attrs = Inr (0, s)" using f by (simp add: setAttrs_def doSQLite_failed)
  show "setValue s key v = Inr (0, s)" using f by (rule setValue_failed)
  show "setIfAbsent s key v
          = Inr (case queryAttribute s key of None \<Rightarrow> 0 | Some r \<Rightarrow> castAttrType (row_id r),
                 logQuery s key)"
    using f by (rule setIfAbsent_failed)
  show "failed (snd (getId s key))"
    using f by (simp add: getId_def logQuery_def split: option.splits)
  show "fst (getId s key) = fst (getId (s\<lparr>failed := False\<rparr>) key)"
    by (simp add: getId_flag)
  show "map_sum id fst (getAttr s key) = map_sum id fst (getAttr (s\<lparr>failed := False\<rparr>) key)"
    by (simp add: getAttr_flag)
next
  assume "failed s" and "\<not> isAttrs v"
  then show "setLeaf s key v = Inr (0, s)" by (simp add: setLeaf_def doSQLite_failed)
next
  fix hit s' assume "failed s" and "getAttr s key = Inr (hit, s')"
  then show "failed s'"
    by (auto simp: getAttr_def logQuery_def split: option.splits sum.splits)
next
  fix r assume "queryAttribute s key = Some r"
  then show "getId s key = (Some (castAttrType (row_id r)), logQuery s key)"
    by (rule getId_present)
qed

text \<open>
  The same at the store with a root and its placeholder child: a second insert at the
  child's key fails, and the failed store ignores writes and still finds the child.
\<close>

theorem sticky_failure_witness:
  "\<not> failed placeholderDb
   \<and> fst (setLeafBody (1, ''a'') Missing_t placeholderDb) = Inl SQLiteError
   \<and> doSQLite placeholderDb (setLeafBody (1, ''a'') Missing_t) = Inr (0, failedDb)
   \<and> failed failedDb \<and> \<not> isAttrs Missing_t
   \<and> setLeaf failedDb (1, ''b'') Missing_t = Inr (0, failedDb)
   \<and> setAttrs failedDb (1, ''b'') [] = Inr (0, failedDb)
   \<and> setValue failedDb (1, ''b'') Missing_t = Inr (0, failedDb)
   \<and> queryAttribute failedDb (1, ''a'') = Some (mkRow 2 1 ''a'' Placeholder None None)
   \<and> getId failedDb (1, ''a'') = (Some 2, logQuery failedDb (1, ''a''))"
proof -
  have h1: "\<not> failed placeholderDb" by (simp add: example_defs)
  have h2: "fst (setLeafBody (1, ''a'') Missing_t placeholderDb) = Inl SQLiteError"
    by (simp add: store_defs example_defs)
  have h3: "failed failedDb" by (simp add: failedDb_def)
  have h4: "\<not> isAttrs Missing_t" by (simp add: isAttrs_def)
  have e: "(snd (setLeafBody (1, ''a'') Missing_t placeholderDb))\<lparr>failed := True\<rparr> = failedDb"
    by (simp add: store_defs example_defs failedDb_def)
  note first = sticky_failure [of placeholderDb "setLeafBody (1, ''a'') Missing_t"
      failedDb "(1, ''b'')" "[]" Missing_t]
  note second = sticky_failure [of placeholderDb "setLeafBody (1, ''a'') Missing_t"
      failedDb "(1, ''a'')" "[]" Missing_t]
  have q: "queryAttribute failedDb (1, ''a'') = Some (mkRow 2 1 ''a'' Placeholder None None)"
    by (simp add: queryAttribute_def keyRows_def failedDb_def example_defs)
  have c: "castAttrType (row_id (mkRow 2 1 ''a'' Placeholder None None)) = 2"
    by (simp add: castAttrType_def mkRow_def)
  from first h1 h2 e have a: "doSQLite placeholderDb (setLeafBody (1, ''a'') Missing_t) = Inr (0, failedDb)"
    by simp
  from first h3 h4 have b: "setLeaf failedDb (1, ''b'') Missing_t = Inr (0, failedDb)
      \<and> setAttrs failedDb (1, ''b'') [] = Inr (0, failedDb)
      \<and> setValue failedDb (1, ''b'') Missing_t = Inr (0, failedDb)"
    by blast
  from second h3 q have "getId failedDb (1, ''a'')
      = (Some (castAttrType (row_id (mkRow 2 1 ''a'' Placeholder None None))), logQuery failedDb (1, ''a''))"
    by blast
  with c have d: "getId failedDb (1, ''a'') = (Some 2, logQuery failedDb (1, ''a''))" by simp
  show ?thesis using h1 h2 h3 h4 a b q d by blast
qed

subsection \<open>A cache without a store\<close>

text \<open>
  C8. A cache opened without a fingerprint should still serve \<open>getRoot\<close>, \<open>addChild\<close>,
  \<open>setValue\<close> and \<open>getCachedValue\<close>. It does not: its store pointer is null, and the
  cursor operations call through it without a check (only \<open>commit\<close> tests it).
\<close>

theorem getRoot_without_fingerprint:
  "db (newCache None makeAttrDb) = None
   \<and> getRoot (newCache None makeAttrDb) = Inl NullDereference
   \<and> addChild (newCache None makeAttrDb) cur name v = Inl NullDereference
   \<and> Cursor_setValue (newCache None makeAttrDb) cur v = Inl NullDereference
   \<and> maybeGetAttr (newCache None makeAttrDb) cur name = Inl NullDereference"
  by (simp add: cursor_defs)

end
